theory Spec2Isabelle
  imports Main "HOL-Library.Word"
begin

section \<open>Data model of the Sentio touch proxy\<close>

text \<open>
  The component is the C++ class \<open>SmartTouchComponent\<close> (Sentio.h, Sentio.cpp).
  Its \<open>uint32_t\<close> fields and the millisecond clock are 32-bit words with wrapping
  unsigned arithmetic; its \<open>int\<close> values are 32-bit words read as two's complement
  (signed comparison \<open><s\<close>, wrapping subtraction); the \<open>int16_t\<close> fields
  \<open>start_x_\<close> and \<open>start_y_\<close> are 16-bit words, written by truncation and read back
  by sign extension. Field names drop the trailing underscore of the C++ members.
\<close>

type_synonym uint32 = "32 word"
type_synonym cint = "32 word"
type_synonym int16 = "16 word"

datatype TouchState = STATE_IDLE | STATE_START | STATE_DRAGGING | STATE_RELEASED

text \<open>
  Modelled from the spec: the declaration of \<open>touchscreen::TouchPoint\<close> is in a header
  outside the repository. The spec gives a sample the shape
  \<open>{id, x:int, y:int, pressure:int}\<close>, and Sentio.cpp reads exactly the members
  \<open>id\<close>, \<open>x\<close>, \<open>y\<close> and \<open>pressure\<close>.
\<close>

record TouchPoint =
  tp_id :: cint
  tp_x :: cint
  tp_y :: cint
  tp_pressure :: cint

text \<open>
  The five \<open>Trigger<> *\<close> members are modelled by whether they are non-null
  (\<open>True\<close>: a handler is registered).
\<close>

record SmartTouchComponent =
  display_width :: cint
  display_height :: cint
  sleep_timeout_ms :: uint32
  suppress_wake_click :: bool
  swap_xy :: bool
  invert_x :: bool
  invert_y :: bool
  debug_raw :: bool
  debounce_ms :: uint32
  last_activity_time :: uint32
  is_sleeping :: bool
  ignore_next_release :: bool
  state :: TouchState
  gesture_start_time :: uint32
  start_x :: int16
  start_y :: int16
  on_swipe_left :: bool
  on_swipe_right :: bool
  on_tap :: bool
  on_wake :: bool
  on_sleep :: bool

text \<open>
  What one call of \<open>loop()\<close> does to the outside, in program order: a trigger whose
  handler is registered is called, the output buffer \<open>touches\<close> is cleared, or a
  calibrated point is handed to \<open>add_raw_touch_position_\<close> (the output sink). Log
  lines (\<open>ESP_LOGI\<close>, \<open>ESP_LOGD\<close>, also the one guarded by \<open>debug_raw_\<close>) are left out.
\<close>

datatype trigger = ON_SLEEP | ON_WAKE | ON_TAP | ON_SWIPE_LEFT | ON_SWIPE_RIGHT

datatype effect =
  Trigger trigger
  | touches_clear
  | add_raw_touch_position cint cint cint cint

definition SWIPE_THRESHOLD :: cint where
  "SWIPE_THRESHOLD = 30"

definition MAX_TAP_TIME :: cint where
  "MAX_TAP_TIME = 400"

text \<open>\<open>if (this->on_x_) this->on_x_->trigger();\<close>\<close>

definition trigger_opt :: "bool \<Rightarrow> trigger \<Rightarrow> effect list" where
  "trigger_opt registered t = (if registered then [Trigger t] else [])"

text \<open>\<open>abs\<close> on \<open>int\<close>; on two's complement \<open>abs(INT_MIN)\<close> is \<open>INT_MIN\<close>.\<close>

definition abs_int :: "cint \<Rightarrow> cint" where
  "abs_int v = (if v <s 0 then - v else v)"

section \<open>Operations\<close>

text \<open>\<open>setup()\<close>: the clock value \<open>millis()\<close> is the argument \<open>now\<close>.\<close>

definition setup_component :: "uint32 \<Rightarrow> SmartTouchComponent \<Rightarrow> SmartTouchComponent" where
  "setup_component now c = c\<lparr>last_activity_time := now\<rparr>"

text \<open>\<open>apply_calibration\<close>: swap, then invert against the effective extent, then clamp at 0.\<close>

definition apply_calibration :: "SmartTouchComponent \<Rightarrow> TouchPoint \<Rightarrow> TouchPoint" where
  "apply_calibration c p =
     (let x0 = tp_x p;
          y0 = tp_y p;
          x1 = (if swap_xy c then y0 else x0);
          y1 = (if swap_xy c then x0 else y0);
          width = (if swap_xy c then display_height c else display_width c);
          height = (if swap_xy c then display_width c else display_height c);
          x2 = (if invert_x c then width - x1 else x1);
          y2 = (if invert_y c then height - y1 else y1);
          x3 = (if x2 <s 0 then 0 else x2);
          y3 = (if y2 <s 0 then 0 else y2)
      in p\<lparr>tp_x := x3, tp_y := y3\<rparr>)"

text \<open>
  \<open>process_gestures\<close>. The assignment \<open>start_x_ = p.x\<close> narrows \<open>int\<close> to
  \<open>int16_t\<close> (\<open>ucast\<close> keeps the low 16 bits); \<open>p.x - start_x_\<close> promotes the field back
  to \<open>int\<close> (\<open>scast\<close> sign-extends). \<open>dy\<close> is computed and never used. The switch
  has no case for \<open>STATE_RELEASED\<close>, so nothing happens there.
\<close>

definition process_gestures ::
  "uint32 \<Rightarrow> TouchPoint \<Rightarrow> SmartTouchComponent \<Rightarrow> effect list \<times> SmartTouchComponent" where
  "process_gestures now p c =
     (case state c of
        STATE_IDLE \<Rightarrow>
          ([], c\<lparr>state := STATE_START,
                 start_x := ucast (tp_x p),
                 start_y := ucast (tp_y p),
                 gesture_start_time := now\<rparr>)
      | STATE_START \<Rightarrow>
          (let dx = tp_x p - scast (start_x c) in
           if SWIPE_THRESHOLD <s abs_int dx then
             ((if 0 <s dx then trigger_opt (on_swipe_right c) ON_SWIPE_RIGHT
               else trigger_opt (on_swipe_left c) ON_SWIPE_LEFT),
              c\<lparr>state := STATE_DRAGGING\<rparr>)
           else ([], c))
      | STATE_DRAGGING \<Rightarrow> ([], c)
      | STATE_RELEASED \<Rightarrow> ([], c))"

text \<open>
  \<open>handle_release\<close> changes no field of the component; it only produces effects.
  \<open>duration < MAX_TAP_TIME\<close> compares \<open>uint32_t\<close> with \<open>int\<close>, so it is unsigned.
\<close>

definition handle_release :: "uint32 \<Rightarrow> SmartTouchComponent \<Rightarrow> effect list" where
  "handle_release now c =
     (if state c = STATE_START then
        (let duration = now - gesture_start_time c in
         if duration < debounce_ms c then [touches_clear]
         else if duration < MAX_TAP_TIME then trigger_opt (on_tap c) ON_TAP
         else [])
      else [])"

text \<open>Step 1 of \<open>loop()\<close>, the sleep check (lines 15-23).\<close>

definition sleep_check ::
  "uint32 \<Rightarrow> SmartTouchComponent \<Rightarrow> effect list \<times> SmartTouchComponent" where
  "sleep_check now c =
     (if now - last_activity_time c > sleep_timeout_ms c then
        (if \<not> is_sleeping c then
           (trigger_opt (on_sleep c) ON_SLEEP, c\<lparr>is_sleeping := True\<rparr>)
         else ([], c))
      else ([], c))"

text \<open>Step 3 of \<open>loop()\<close>, the branch taken when the source has no touch (lines 29-41).\<close>

definition release_logic ::
  "uint32 \<Rightarrow> SmartTouchComponent \<Rightarrow> effect list \<times> SmartTouchComponent" where
  "release_logic now c =
     (if state c \<noteq> STATE_IDLE then
        (handle_release now c @ [touches_clear],
         c\<lparr>state := STATE_IDLE, ignore_next_release := False\<rparr>)
      else ([], c))"

text \<open>Lines 65-82 of \<open>loop()\<close>: timer reset, trap check, steps 6 to 8.\<close>

definition pass_through ::
  "uint32 \<Rightarrow> TouchPoint \<Rightarrow> SmartTouchComponent \<Rightarrow> effect list \<times> SmartTouchComponent" where
  "pass_through now raw_p c =
     (let c1 = c\<lparr>last_activity_time := now\<rparr> in
      if ignore_next_release c1 then ([], c1)
      else
        (let p = apply_calibration c1 raw_p;
             (es, c2) = process_gestures now p c1
         in (es @ [add_raw_touch_position (tp_id p) (tp_x p) (tp_y p) (tp_pressure p)], c2)))"

text \<open>Steps 4 and 5 of \<open>loop()\<close>, the wake logic, followed by the rest (lines 43-82).\<close>

definition touch_detected ::
  "uint32 \<Rightarrow> TouchPoint \<Rightarrow> SmartTouchComponent \<Rightarrow> effect list \<times> SmartTouchComponent" where
  "touch_detected now raw_p c =
     (if is_sleeping c then
        (let c1 = c\<lparr>is_sleeping := False, last_activity_time := now\<rparr>;
             ew = trigger_opt (on_wake c1) ON_WAKE
         in if suppress_wake_click c1 then (ew, c1\<lparr>ignore_next_release := True\<rparr>)
            else (let (es, c2) = pass_through now raw_p c1 in (ew @ es, c2)))
      else pass_through now raw_p c)"

text \<open>
  \<open>loop()\<close>, one tick. \<open>now\<close> is the value of \<open>millis()\<close> during the call (all reads
  within one call return the same value). \<open>src\<close> is \<open>None\<close> when \<open>source_driver_\<close>
  is null and otherwise the vector \<open>source_driver_->touches\<close>; \<open>src_touches[0]\<close> is
  read only after the vector was found non-empty.
\<close>

definition loop ::
  "uint32 \<Rightarrow> TouchPoint list option \<Rightarrow> SmartTouchComponent
     \<Rightarrow> effect list \<times> SmartTouchComponent" where
  "loop now src c =
     (case src of
        None \<Rightarrow> ([], c)
      | Some src_touches \<Rightarrow>
          (let (e1, c1) = sleep_check now c in
           case src_touches of
             [] \<Rightarrow> (let (e2, c2) = release_logic now c1 in (e1 @ e2, c2))
           | raw_p # _ \<Rightarrow> (let (e2, c2) = touch_detected now raw_p c1 in (e1 @ e2, c2))))"

text \<open>
  The scheduler calls \<open>loop()\<close> once per tick with a bound source; a tick is the clock
  value and the source's touches at that call.
\<close>

fun run ::
  "(uint32 \<times> TouchPoint list) list \<Rightarrow> SmartTouchComponent
     \<Rightarrow> effect list \<times> SmartTouchComponent" where
  "run [] c = ([], c)"
| "run ((now, src_touches) # ticks) c =
     (let (e, c1) = loop now (Some src_touches) c;
          (es, c2) = run ticks c1
      in (e @ es, c2))"

section \<open>Observing a run\<close>

text \<open>The triggers called by a list of effects, in order.\<close>

fun triggers :: "effect list \<Rightarrow> trigger list" where
  "triggers [] = []"
| "triggers (Trigger t # es) = t # triggers es"
| "triggers (touches_clear # es) = triggers es"
| "triggers (add_raw_touch_position i x y z # es) = triggers es"

text \<open>The points handed to the output sink, as (id, x, y, pressure).\<close>

fun forwarded :: "effect list \<Rightarrow> (cint \<times> cint \<times> cint \<times> cint) list" where
  "forwarded [] = []"
| "forwarded (Trigger t # es) = forwarded es"
| "forwarded (touches_clear # es) = forwarded es"
| "forwarded (add_raw_touch_position i x y z # es) = (i, x, y, z) # forwarded es"

fun is_swipe :: "trigger \<Rightarrow> bool" where
  "is_swipe ON_SWIPE_LEFT = True"
| "is_swipe ON_SWIPE_RIGHT = True"
| "is_swipe ON_SLEEP = False"
| "is_swipe ON_WAKE = False"
| "is_swipe ON_TAP = False"

fun is_gesture :: "trigger \<Rightarrow> bool" where
  "is_gesture ON_TAP = True"
| "is_gesture ON_SWIPE_LEFT = True"
| "is_gesture ON_SWIPE_RIGHT = True"
| "is_gesture ON_SLEEP = False"
| "is_gesture ON_WAKE = False"

definition gesture_triggers :: "effect list \<Rightarrow> trigger list" where
  "gesture_triggers es = filter is_gesture (triggers es)"

definition swipe_triggers :: "effect list \<Rightarrow> trigger list" where
  "swipe_triggers es = filter is_swipe (triggers es)"

text \<open>A contact is down on every one of these ticks: the source has a touch.\<close>

fun touching :: "(uint32 \<times> TouchPoint list) list \<Rightarrow> bool" where
  "touching [] = True"
| "touching ((now, src_touches) # ticks) = (src_touches \<noteq> [] \<and> touching ticks)"


text \<open>
  The configuration of the spec's scenario (320 by 240 display, sleep timeout 1000 ms,
  wake-click suppression on, debounce 20 ms, no swap or inversion), every handler
  registered, the runtime fields at their initial values of Sentio.h and \<open>setup()\<close>
  run at clock value 0.
\<close>

definition scenario_component :: SmartTouchComponent where
  "scenario_component =
     setup_component 0
       \<lparr>display_width = 320, display_height = 240, sleep_timeout_ms = 1000,
        suppress_wake_click = True, swap_xy = False, invert_x = False, invert_y = False,
        debug_raw = False, debounce_ms = 20, last_activity_time = 0, is_sleeping = False,
        ignore_next_release = False, state = STATE_IDLE, gesture_start_time = 0,
        start_x = 0, start_y = 0, on_swipe_left = True, on_swipe_right = True,
        on_tap = True, on_wake = True, on_sleep = True\<rparr>"

definition touch_at :: "cint \<Rightarrow> cint \<Rightarrow> TouchPoint" where
  "touch_at x y = \<lparr>tp_id = 0, tp_x = x, tp_y = y, tp_pressure = 1\<rparr>"

text \<open>
  A component in the middle of a contact that is still undecided, and one whose
  timestamps were taken shortly before the 32-bit clock rolls over.
\<close>

definition pending_component :: SmartTouchComponent where
  "pending_component =
     scenario_component\<lparr>last_activity_time := 100, state := STATE_START,
                        gesture_start_time := 100, start_x := 50, start_y := 50\<rparr>"

definition wrap_component :: SmartTouchComponent where
  "wrap_component =
     scenario_component\<lparr>last_activity_time := 4294967000,
                        gesture_start_time := 4294967000, state := STATE_START\<rparr>"

definition dragging_component :: SmartTouchComponent where
  "dragging_component = pending_component\<lparr>state := STATE_DRAGGING\<rparr>"

text \<open>
  Two contacts as the ticks that see them: one that moves from (100, 100) to (140, 100)
  and on, and one that is held for 700 ms while it moves by 140 units.
\<close>

definition swipe_right_contact :: "(uint32 \<times> TouchPoint list) list" where
  "swipe_right_contact =
     [(100, [touch_at 100 100]), (150, [touch_at 140 100]), (200, [touch_at 150 100])]"


text \<open>The triggers of the activity monitor, as opposed to those of the gesture engine.\<close>

fun is_sleep_wake :: "trigger \<Rightarrow> bool" where
  "is_sleep_wake ON_SLEEP = True"
| "is_sleep_wake ON_WAKE = True"
| "is_sleep_wake ON_TAP = False"
| "is_sleep_wake ON_SWIPE_LEFT = False"
| "is_sleep_wake ON_SWIPE_RIGHT = False"


definition far_contact :: "(uint32 \<times> TouchPoint list) list" where
  "far_contact = [(100, [touch_at 40000 50]), (150, [touch_at 40000 50])]"

definition slow_contact :: "(uint32 \<times> TouchPoint list) list" where
  "slow_contact = [(150, [touch_at 110 100])]"

text \<open>
  A tick with a touch at clock value \<open>now\<close> returns before calibration: the trap is
  armed already, or the wake logic arms it on this tick.
\<close>

definition swallowed :: "uint32 \<Rightarrow> SmartTouchComponent \<Rightarrow> bool" where
  "swallowed now c =
     (ignore_next_release c
      \<or> (suppress_wake_click c
          \<and> (is_sleeping c \<or> sleep_timeout_ms c < now - last_activity_time c)))"

section \<open>Effects of the building blocks\<close>

lemmas tick_defs = loop_def sleep_check_def release_logic_def touch_detected_def
  pass_through_def

lemmas fixture_defs = scenario_component_def setup_component_def pending_component_def
  touch_at_def

lemma triggers_append [simp]: "triggers (xs @ ys) = triggers xs @ triggers ys"
  by (induction xs rule: triggers.induct) simp_all

lemma forwarded_append [simp]: "forwarded (xs @ ys) = forwarded xs @ forwarded ys"
  by (induction xs rule: forwarded.induct) simp_all

lemma triggers_trigger_opt [simp]: "triggers (trigger_opt r t) = (if r then [t] else [])"
  by (simp add: trigger_opt_def)

lemma forwarded_trigger_opt [simp]: "forwarded (trigger_opt r t) = []"
  by (simp add: trigger_opt_def)

lemma swipe_triggers_append [simp]:
  "swipe_triggers (xs @ ys) = swipe_triggers xs @ swipe_triggers ys"
  by (simp add: swipe_triggers_def)

lemma gesture_triggers_append [simp]:
  "gesture_triggers (xs @ ys) = gesture_triggers xs @ gesture_triggers ys"
  by (simp add: gesture_triggers_def)

lemma handle_release_triggers:
  "triggers (handle_release now c) =
     (if state c = STATE_START \<and> debounce_ms c \<le> now - gesture_start_time c
         \<and> now - gesture_start_time c < 400 \<and> on_tap c
      then [ON_TAP] else [])"
  by (auto simp add: handle_release_def Let_def MAX_TAP_TIME_def)

lemma handle_release_forwarded [simp]: "forwarded (handle_release now c) = []"
  by (simp add: handle_release_def Let_def)

lemma process_gestures_forwarded [simp]:
  "forwarded (fst (process_gestures now p c)) = []"
  by (simp add: process_gestures_def Let_def split: TouchState.splits)

lemma unat_clock_diff:
  fixes T0 T1 :: nat
  assumes "T0 \<le> T1"
  shows "unat ((of_nat T1 :: uint32) - of_nat T0) = (T1 - T0) mod 2 ^ 32"
proof -
  have "(of_nat T1 :: uint32) - of_nat T0 = of_nat (T1 - T0)"
    using assms by (simp add: of_nat_diff)
  then show ?thesis by (simp add: unat_of_nat)
qed

lemma run_append:
  "run (xs @ ys) c =
     (fst (run xs c) @ fst (run ys (snd (run xs c))), snd (run ys (snd (run xs c))))"
  by (induction xs arbitrary: c) (auto simp add: case_prod_beta Let_def)

lemma run_single: "run [(now, ts)] c = loop now (Some ts) c"
  by (simp add: case_prod_beta)

text \<open>Swallowed ticks, and the fields that no tick changes.\<close>

lemma process_gestures_keeps_trap [simp]:
  "ignore_next_release (snd (process_gestures now p c)) = ignore_next_release c"
  by (simp add: process_gestures_def Let_def split: TouchState.splits)

lemma loop_touch_trap:
  "ignore_next_release (snd (loop now (Some (raw_p # rest)) c)) = swallowed now c"
  by (auto simp add: swallowed_def loop_def sleep_check_def touch_detected_def
      pass_through_def Let_def case_prod_beta)

lemma loop_touch_swallowed:
  assumes "swallowed now c"
  shows "forwarded (fst (loop now (Some (raw_p # rest)) c)) = []
       \<and> gesture_triggers (fst (loop now (Some (raw_p # rest)) c)) = []
       \<and> state (snd (loop now (Some (raw_p # rest)) c)) = state c
       \<and> start_x (snd (loop now (Some (raw_p # rest)) c)) = start_x c
       \<and> start_y (snd (loop now (Some (raw_p # rest)) c)) = start_y c
       \<and> gesture_start_time (snd (loop now (Some (raw_p # rest)) c)) = gesture_start_time c"
  using assms
  by (auto simp add: swallowed_def loop_def sleep_check_def touch_detected_def
      pass_through_def Let_def case_prod_beta gesture_triggers_def)

lemma apply_calibration_cong:
  assumes "swap_xy c' = swap_xy c" and "invert_x c' = invert_x c"
    and "invert_y c' = invert_y c" and "display_width c' = display_width c"
    and "display_height c' = display_height c"
  shows "apply_calibration c' p = apply_calibration c p"
  using assms by (simp add: apply_calibration_def Let_def)

lemma apply_calibration_nonneg:
  "0 \<le> sint (tp_x (apply_calibration c p))" "0 \<le> sint (tp_y (apply_calibration c p))"
  by (simp_all add: apply_calibration_def Let_def word_sless_alt)

lemma process_gestures_keeps_settings:
  "swap_xy (snd (process_gestures now p c)) = swap_xy c
   \<and> invert_x (snd (process_gestures now p c)) = invert_x c
   \<and> invert_y (snd (process_gestures now p c)) = invert_y c
   \<and> display_width (snd (process_gestures now p c)) = display_width c
   \<and> display_height (snd (process_gestures now p c)) = display_height c
   \<and> on_swipe_left (snd (process_gestures now p c)) = on_swipe_left c
   \<and> on_swipe_right (snd (process_gestures now p c)) = on_swipe_right c"
  by (simp add: process_gestures_def Let_def split: TouchState.splits)

lemma loop_keeps_settings:
  "swap_xy (snd (loop now src c)) = swap_xy c
   \<and> invert_x (snd (loop now src c)) = invert_x c
   \<and> invert_y (snd (loop now src c)) = invert_y c
   \<and> display_width (snd (loop now src c)) = display_width c
   \<and> display_height (snd (loop now src c)) = display_height c
   \<and> on_swipe_left (snd (loop now src c)) = on_swipe_left c
   \<and> on_swipe_right (snd (loop now src c)) = on_swipe_right c"
proof (cases src)
  case None
  then show ?thesis by (simp add: loop_def)
next
  case (Some ts)
  then show ?thesis
    by (cases ts)
      (simp_all add: tick_defs Let_def case_prod_beta process_gestures_keeps_settings)
qed

lemma run_keeps_settings:
  "swap_xy (snd (run ticks c)) = swap_xy c
   \<and> invert_x (snd (run ticks c)) = invert_x c
   \<and> invert_y (snd (run ticks c)) = invert_y c
   \<and> display_width (snd (run ticks c)) = display_width c
   \<and> display_height (snd (run ticks c)) = display_height c
   \<and> on_swipe_left (snd (run ticks c)) = on_swipe_left c
   \<and> on_swipe_right (snd (run ticks c)) = on_swipe_right c"
proof (induction ticks arbitrary: c)
  case Nil
  then show ?case by simp
next
  case (Cons tick ticks)
  obtain now ts where tick: "tick = (now, ts)"
    by (cases tick)
  from Cons.IH [of "snd (loop now (Some ts) c)"] loop_keeps_settings [of now "Some ts" c]
  show ?case
    by (simp add: tick case_prod_beta)
qed

section \<open>Calibration\<close>

text \<open>
  C5. \<open>apply_calibration\<close> swaps before it inverts, and inverts each axis against the
  swapped extent. With \<open>swap_xy\<close> set, for every setting of the inversion flags, the
  output x is the input y, subtracted from the display height when \<open>invert_x\<close> is set,
  and the output y is the input x, subtracted from the display width when \<open>invert_y\<close>
  is set, each clamped at 0. With \<open>swap_xy\<close> clear the output x is the input x,
  subtracted from the display width when \<open>invert_x\<close> is set, and the output y is the
  input y, subtracted from the display height when \<open>invert_y\<close> is set. On a 320 by 240
  display with \<open>swap_xy\<close> and \<open>invert_x\<close> the input (10, 5) yields x = 240 - 5 = 235 and
  y = 10; with \<open>invert_y\<close> as well it yields y = 320 - 10 = 310.
\<close>

theorem apply_calibration_swap_then_invert:
  "apply_calibration (c\<lparr>swap_xy := True\<rparr>) p
     = p\<lparr>tp_x := (if invert_x c
                   then (if display_height c - tp_y p <s 0 then 0
                         else display_height c - tp_y p)
                   else (if tp_y p <s 0 then 0 else tp_y p)),
          tp_y := (if invert_y c
                   then (if display_width c - tp_x p <s 0 then 0
                         else display_width c - tp_x p)
                   else (if tp_x p <s 0 then 0 else tp_x p))\<rparr>
   \<and> apply_calibration (c\<lparr>swap_xy := False\<rparr>) p
     = p\<lparr>tp_x := (if invert_x c
                   then (if display_width c - tp_x p <s 0 then 0
                         else display_width c - tp_x p)
                   else (if tp_x p <s 0 then 0 else tp_x p)),
          tp_y := (if invert_y c
                   then (if display_height c - tp_y p <s 0 then 0
                         else display_height c - tp_y p)
                   else (if tp_y p <s 0 then 0 else tp_y p))\<rparr>
   \<and> apply_calibration (c\<lparr>swap_xy := True, invert_x := True, invert_y := False\<rparr>) p
     = p\<lparr>tp_x := (if display_height c - tp_y p <s 0 then 0 else display_height c - tp_y p),
          tp_y := (if tp_x p <s 0 then 0 else tp_x p)\<rparr>
   \<and> apply_calibration
        (c\<lparr>display_width := 320, display_height := 240,
            swap_xy := True, invert_x := True, invert_y := False\<rparr>)
        (p\<lparr>tp_x := 10, tp_y := 5\<rparr>)
     = p\<lparr>tp_x := 235, tp_y := 10\<rparr>
   \<and> apply_calibration
        (c\<lparr>display_width := 320, display_height := 240,
            swap_xy := True, invert_x := True, invert_y := True\<rparr>)
        (p\<lparr>tp_x := 10, tp_y := 5\<rparr>)
     = p\<lparr>tp_x := 235, tp_y := 310\<rparr>
   \<and> apply_calibration
        (c\<lparr>display_width := 320, display_height := 240,
            swap_xy := False, invert_x := True, invert_y := True\<rparr>)
        (p\<lparr>tp_x := 10, tp_y := 5\<rparr>)
     = p\<lparr>tp_x := 310, tp_y := 235\<rparr>"
  by (simp add: apply_calibration_def Let_def word_sless_alt)

text \<open>
  C8. Under the default configuration (\<open>swap_xy\<close>, \<open>invert_x\<close>, \<open>invert_y\<close> all false)
  \<open>apply_calibration\<close> is the identity on every point whose coordinates are
  non-negative.
\<close>

theorem apply_calibration_default_identity:
  assumes "\<not> swap_xy c" and "\<not> invert_x c" and "\<not> invert_y c"
    and "0 \<le>s tp_x p" and "0 \<le>s tp_y p"
  shows "apply_calibration c p = p"
  using assms by (simp add: apply_calibration_def Let_def word_sless_alt word_sle_eq)

theorem apply_calibration_default_identity_witness:
  "\<not> swap_xy scenario_component \<and> \<not> invert_x scenario_component
   \<and> \<not> invert_y scenario_component
   \<and> 0 \<le>s tp_x (touch_at 50 70) \<and> 0 \<le>s tp_y (touch_at 50 70)
   \<and> apply_calibration scenario_component (touch_at 50 70) = touch_at 50 70"
  using apply_calibration_default_identity [of scenario_component "touch_at 50 70"]
  by (simp add: scenario_component_def setup_component_def touch_at_def word_sle_eq)

text \<open>
  C10. For every input point and every configuration, \<open>apply_calibration\<close> leaves the
  point's id and pressure unchanged; only x and y of the returned point may differ.
\<close>

theorem apply_calibration_frame:
  "tp_id (apply_calibration c p) = tp_id p
   \<and> tp_pressure (apply_calibration c p) = tp_pressure p
   \<and> apply_calibration c p
       = p\<lparr>tp_x := tp_x (apply_calibration c p), tp_y := tp_y (apply_calibration c p)\<rparr>"
  by (simp add: apply_calibration_def Let_def)

section \<open>Elapsed time\<close>

text \<open>
  C9. Both elapsed-time computations, the idle time of the sleep check and the duration
  of \<open>handle_release\<close>, are unsigned 32-bit subtractions of a past clock value from the
  current one. If the true times in milliseconds are \<open>T0 \<le> T1\<close> and the clock shows
  them modulo \<open>2 ^ 32\<close>, both computations work with \<open>(T1 - T0) mod 2 ^ 32\<close>, which is the
  true elapsed time \<open>T1 - T0\<close> whenever that is below \<open>2 ^ 32\<close>, also when the clock
  rolled over between the two readings.
\<close>

theorem elapsed_time_wraparound:
  fixes T0 T1 :: nat
  assumes "T0 \<le> T1"
  shows "(last_activity_time c = of_nat T0 \<longrightarrow>
           sleep_check (of_nat T1) c =
             (if unat (sleep_timeout_ms c) < (T1 - T0) mod 2 ^ 32 \<and> \<not> is_sleeping c
              then (trigger_opt (on_sleep c) ON_SLEEP, c\<lparr>is_sleeping := True\<rparr>)
              else ([], c)))
       \<and> (gesture_start_time c = of_nat T0 \<and> state c = STATE_START \<longrightarrow>
           handle_release (of_nat T1) c =
             (if (T1 - T0) mod 2 ^ 32 < unat (debounce_ms c) then [touches_clear]
              else if (T1 - T0) mod 2 ^ 32 < 400 then trigger_opt (on_tap c) ON_TAP
              else []))
       \<and> (T1 - T0 < 2 ^ 32 \<longrightarrow>
            (T1 - T0) mod 2 ^ 32 = T1 - T0
            \<and> unat ((of_nat T1 :: uint32) - of_nat T0) = T1 - T0)"
  using unat_clock_diff [OF assms]
  by (auto simp add: sleep_check_def handle_release_def Let_def MAX_TAP_TIME_def
      word_less_nat_alt)

theorem elapsed_time_wraparound_witness:
  "(4294967000 :: nat) \<le> 4294968001
   \<and> last_activity_time wrap_component = of_nat 4294967000
   \<and> gesture_start_time wrap_component = of_nat 4294967000
   \<and> state wrap_component = STATE_START
   \<and> (of_nat 4294968001 :: uint32) = 705
   \<and> sleep_check 705 wrap_component
       = ([Trigger ON_SLEEP], wrap_component\<lparr>is_sleeping := True\<rparr>)
   \<and> handle_release 705 wrap_component = []
   \<and> unat ((705 :: uint32) - 4294967000) = 1001"
proof -
  have k: "(of_nat 4294968001 :: uint32) = 705"
    by simp
  have le: "(4294967000 :: nat) \<le> 4294968001"
    by simp
  note t = elapsed_time_wraparound [OF le, of wrap_component, unfolded k]
  have w: "last_activity_time wrap_component = of_nat 4294967000"
    "gesture_start_time wrap_component = of_nat 4294967000"
    "state wrap_component = STATE_START"
    by (simp_all add: wrap_component_def scenario_component_def setup_component_def)
  have s: "sleep_check 705 wrap_component
             = ([Trigger ON_SLEEP], wrap_component\<lparr>is_sleeping := True\<rparr>)"
    using t w
    by (simp add: wrap_component_def scenario_component_def setup_component_def
        trigger_opt_def)
  have h: "handle_release 705 wrap_component = []"
    using t w
    by (simp add: wrap_component_def scenario_component_def setup_component_def)
  have u: "unat ((705 :: uint32) - 4294967000) = 1001"
    by simp
  from k le w s h u show ?thesis
    by blast
qed

section \<open>Release of an undecided contact\<close>

text \<open>
  C6. On release of a contact whose state is still \<open>STATE_START\<close>, with
  duration = now - gesture_start_time: below the debounce threshold no trigger is
  called; from the debounce threshold up to, but not including, 400 ms the tap trigger
  is called, once, and no other (the call reaches a handler when one is registered);
  from 400 ms on no trigger is called. The same holds for the tap and swipe triggers on
  the tick of \<open>loop()\<close> that sees the release, which leaves the state \<open>STATE_IDLE\<close>.
\<close>

theorem release_while_pending:
  assumes "state c = STATE_START"
  shows "(now - gesture_start_time c < debounce_ms c \<longrightarrow>
            triggers (handle_release now c) = []
            \<and> gesture_triggers (fst (loop now (Some []) c)) = [])
       \<and> (debounce_ms c \<le> now - gesture_start_time c \<and> now - gesture_start_time c < 400 \<longrightarrow>
            triggers (handle_release now c) = (if on_tap c then [ON_TAP] else [])
            \<and> gesture_triggers (fst (loop now (Some []) c))
                = (if on_tap c then [ON_TAP] else []))
       \<and> (400 \<le> now - gesture_start_time c \<longrightarrow>
            triggers (handle_release now c) = []
            \<and> gesture_triggers (fst (loop now (Some []) c)) = [])
       \<and> state (snd (loop now (Some []) c)) = STATE_IDLE"
  using assms
  by (auto simp add: handle_release_triggers loop_def sleep_check_def release_logic_def
      gesture_triggers_def Let_def split: prod.splits)

theorem release_while_pending_witness:
  "state pending_component = STATE_START
   \<and> (110 :: uint32) - gesture_start_time pending_component < debounce_ms pending_component
   \<and> triggers (handle_release 110 pending_component) = []
   \<and> gesture_triggers (fst (loop 110 (Some []) pending_component)) = []
   \<and> debounce_ms pending_component \<le> 250 - gesture_start_time pending_component
   \<and> (250 :: uint32) - gesture_start_time pending_component < 400
   \<and> triggers (handle_release 250 pending_component) = [ON_TAP]
   \<and> gesture_triggers (fst (loop 250 (Some []) pending_component)) = [ON_TAP]
   \<and> (400 :: uint32) \<le> 600 - gesture_start_time pending_component
   \<and> triggers (handle_release 600 pending_component) = []
   \<and> gesture_triggers (fst (loop 600 (Some []) pending_component)) = []
   \<and> state (snd (loop 250 (Some []) pending_component)) = STATE_IDLE"
proof -
  have p: "state pending_component = STATE_START"
    "gesture_start_time pending_component = 100"
    "debounce_ms pending_component = 20"
    "on_tap pending_component"
    by (simp_all add: pending_component_def scenario_component_def setup_component_def)
  show ?thesis
    using release_while_pending [OF p(1), of 110] release_while_pending [OF p(1), of 250]
      release_while_pending [OF p(1), of 600] p
    by simp
qed

section \<open>Swipes\<close>

text \<open>Signed reading of the 32-bit and 16-bit values that \<open>process_gestures\<close> handles.\<close>

lemma sint_scast16: "sint (scast (s :: int16) :: cint) = sint s"
  by (simp add: sint_up_scast is_up)

lemma sint_sub32:
  fixes a b :: cint
  assumes "- (2 ^ 31) \<le> sint a - sint b" and "sint a - sint b < 2 ^ 31"
  shows "sint (a - b) = sint a - sint b"
  using assms by (simp add: sint_word_ariths signed_take_bit_int_eq_self)

lemma sint_neg32:
  fixes a :: cint
  assumes "sint a \<noteq> - (2 ^ 31)"
  shows "sint (- a) = - sint a"
  using assms sint_ge [of a] sint_lt [of a]
  by (simp add: sint_word_ariths signed_take_bit_int_eq_self)

lemma ucast_int16_roundtrip:
  fixes v :: cint
  assumes "- (2 ^ 15) \<le> sint v" and "sint v < 2 ^ 15"
  shows "sint (ucast v :: int16) = sint v"
proof -
  have "(ucast v :: int16) = scast v"
    by (simp add: down_cast_same [symmetric] is_down)
  then have "sint (ucast v :: int16) = signed_take_bit 15 (sint v)"
    by (simp add: signed_scast_eq)
  then show ?thesis
    using assms by (simp add: signed_take_bit_int_eq_self)
qed

text \<open>The displacement test of \<open>process_gestures\<close>, read on the integers.\<close>

lemma displacement_test:
  fixes x :: cint and s :: int16
  assumes "- (2 ^ 31) < sint x - sint s" and "sint x - sint s < 2 ^ 31"
  shows "(SWIPE_THRESHOLD <s abs_int (x - scast s)) = (30 < \<bar>sint x - sint s\<bar>)"
    and "(0 <s x - scast s) = (0 < sint x - sint s)"
proof -
  have d: "sint (x - scast s) = sint x - sint s"
    using assms sint_sub32 [of x "scast s"] by (simp add: sint_scast16)
  then have n: "sint (- (x - scast s)) = - (sint x - sint s)"
    using assms sint_neg32 [of "x - scast s"] by simp
  show "(SWIPE_THRESHOLD <s abs_int (x - scast s)) = (30 < \<bar>sint x - sint s\<bar>)"
    using d n by (auto simp add: SWIPE_THRESHOLD_def abs_int_def word_sless_alt)
  show "(0 <s x - scast s) = (0 < sint x - sint s)"
    using d by (simp add: word_sless_alt)
qed

lemma process_gestures_start:
  assumes "state c = STATE_START"
    and "- (2 ^ 31) < sint (tp_x p) - sint (start_x c)"
    and "sint (tp_x p) - sint (start_x c) < 2 ^ 31"
  shows "(state (snd (process_gestures now p c)) = STATE_DRAGGING)
           = (30 < \<bar>sint (tp_x p) - sint (start_x c)\<bar>)"
    and "triggers (fst (process_gestures now p c)) =
           (if 30 < sint (tp_x p) - sint (start_x c)
            then (if on_swipe_right c then [ON_SWIPE_RIGHT] else [])
            else if sint (tp_x p) - sint (start_x c) < - 30
            then (if on_swipe_left c then [ON_SWIPE_LEFT] else [])
            else [])"
  using assms(1) displacement_test [OF assms(2,3)]
  by (auto simp add: process_gestures_def Let_def)

lemma process_gestures_start_word:
  assumes "state c = STATE_START"
  shows "state (snd (process_gestures now p c)) =
           (if SWIPE_THRESHOLD <s abs_int (tp_x p - scast (start_x c))
            then STATE_DRAGGING else STATE_START)"
    and "process_gestures now (p\<lparr>tp_y := y\<rparr>) c = process_gestures now p c"
  using assms by (simp_all add: process_gestures_def Let_def)

lemma process_gestures_idle:
  assumes "state c = STATE_IDLE"
  shows "process_gestures now p c =
           ([], c\<lparr>state := STATE_START, start_x := ucast (tp_x p),
                  start_y := ucast (tp_y p), gesture_start_time := now\<rparr>)"
  using assms by (simp add: process_gestures_def)

lemma process_gestures_dragging:
  assumes "state c = STATE_DRAGGING"
  shows "process_gestures now p c = ([], c)"
  using assms by (simp add: process_gestures_def)

lemma process_gestures_swipes:
  "ON_TAP \<notin> set (triggers (fst (process_gestures now p c)))
   \<and> length (swipe_triggers (fst (process_gestures now p c))) \<le> 1
   \<and> (swipe_triggers (fst (process_gestures now p c)) \<noteq> []
        \<longrightarrow> state (snd (process_gestures now p c)) = STATE_DRAGGING)
   \<and> (state c = STATE_DRAGGING
        \<longrightarrow> fst (process_gestures now p c) = []
          \<and> state (snd (process_gestures now p c)) = STATE_DRAGGING)"
  by (simp add: process_gestures_def Let_def swipe_triggers_def split: TouchState.splits)

lemma pass_through_swipes:
  "ON_TAP \<notin> set (triggers (fst (pass_through now raw_p c)))
   \<and> length (swipe_triggers (fst (pass_through now raw_p c))) \<le> 1
   \<and> (swipe_triggers (fst (pass_through now raw_p c)) \<noteq> []
        \<longrightarrow> state (snd (pass_through now raw_p c)) = STATE_DRAGGING)
   \<and> (state c = STATE_DRAGGING
        \<longrightarrow> gesture_triggers (fst (pass_through now raw_p c)) = []
          \<and> state (snd (pass_through now raw_p c)) = STATE_DRAGGING)"
  using process_gestures_swipes
    [of now "apply_calibration (c\<lparr>last_activity_time := now\<rparr>) raw_p"
      "c\<lparr>last_activity_time := now\<rparr>"]
  by (simp add: pass_through_def Let_def case_prod_beta swipe_triggers_def
      gesture_triggers_def)

lemma loop_touch_swipes:
  "ON_TAP \<notin> set (triggers (fst (loop now (Some (raw_p # rest)) c)))
   \<and> length (swipe_triggers (fst (loop now (Some (raw_p # rest)) c))) \<le> 1
   \<and> (swipe_triggers (fst (loop now (Some (raw_p # rest)) c)) \<noteq> []
        \<longrightarrow> state (snd (loop now (Some (raw_p # rest)) c)) = STATE_DRAGGING)
   \<and> (state c = STATE_DRAGGING
        \<longrightarrow> gesture_triggers (fst (loop now (Some (raw_p # rest)) c)) = []
          \<and> state (snd (loop now (Some (raw_p # rest)) c)) = STATE_DRAGGING)"
proof -
  let ?c1 = "snd (sleep_check now c)"
  have s: "state ?c1 = state c" "swipe_triggers (fst (sleep_check now c)) = []"
    "gesture_triggers (fst (sleep_check now c)) = []"
    "ON_TAP \<notin> set (triggers (fst (sleep_check now c)))"
    by (simp_all add: sleep_check_def swipe_triggers_def gesture_triggers_def)
  show ?thesis
  proof (cases "is_sleeping ?c1")
    case False
    then have "loop now (Some (raw_p # rest)) c
      = (fst (sleep_check now c) @ fst (pass_through now raw_p ?c1),
         snd (pass_through now raw_p ?c1))"
      by (simp add: loop_def touch_detected_def case_prod_beta)
    then show ?thesis
      using s pass_through_swipes [of now raw_p ?c1] by simp
  next
    case True
    let ?c2 = "?c1\<lparr>is_sleeping := False, last_activity_time := now\<rparr>"
    show ?thesis
    proof (cases "suppress_wake_click ?c1")
      case True
      with \<open>is_sleeping ?c1\<close> have "loop now (Some (raw_p # rest)) c
        = (fst (sleep_check now c) @ trigger_opt (on_wake ?c1) ON_WAKE,
           ?c2\<lparr>ignore_next_release := True\<rparr>)"
        by (simp add: loop_def touch_detected_def case_prod_beta Let_def)
      then show ?thesis
        using s by (simp add: swipe_triggers_def gesture_triggers_def)
    next
      case False
      with \<open>is_sleeping ?c1\<close> have "loop now (Some (raw_p # rest)) c
        = (fst (sleep_check now c) @ trigger_opt (on_wake ?c1) ON_WAKE
             @ fst (pass_through now raw_p ?c2),
           snd (pass_through now raw_p ?c2))"
        by (simp add: loop_def touch_detected_def case_prod_beta Let_def)
      then show ?thesis
        using s pass_through_swipes [of now raw_p ?c2]
        by (simp add: swipe_triggers_def gesture_triggers_def)
    qed
  qed
qed

lemma run_touching_swipes:
  "touching ticks \<Longrightarrow>
     ON_TAP \<notin> set (triggers (fst (run ticks c)))
     \<and> length (swipe_triggers (fst (run ticks c))) \<le> 1
     \<and> (swipe_triggers (fst (run ticks c)) \<noteq> []
          \<longrightarrow> state (snd (run ticks c)) = STATE_DRAGGING)
     \<and> (state c = STATE_DRAGGING
          \<longrightarrow> gesture_triggers (fst (run ticks c)) = []
            \<and> state (snd (run ticks c)) = STATE_DRAGGING)"
proof (induction ticks arbitrary: c)
  case Nil
  then show ?case by (simp add: swipe_triggers_def gesture_triggers_def)
next
  case (Cons tick ticks)
  obtain now ts where tick: "tick = (now, ts)"
    by (cases tick)
  with Cons.prems obtain raw_p rest where ts: "ts = raw_p # rest" and t: "touching ticks"
    by (cases ts) auto
  let ?r = "loop now (Some (raw_p # rest)) c"
  have r: "run (tick # ticks) c = (fst ?r @ fst (run ticks (snd ?r)), snd (run ticks (snd ?r)))"
    by (simp add: tick ts case_prod_beta)
  note one = loop_touch_swipes [of now raw_p rest c]
  note ih = Cons.IH [OF t, of "snd ?r"]
  have sg: "\<And>es. gesture_triggers es = [] \<Longrightarrow> swipe_triggers es = []"
  proof -
    fix es
    assume "gesture_triggers es = []"
    then have "\<forall>t \<in> set (triggers es). \<not> is_gesture t"
      by (simp add: gesture_triggers_def filter_empty_conv)
    moreover have "\<And>t. is_swipe t \<Longrightarrow> is_gesture t"
      by (rule is_swipe.elims) auto
    ultimately show "swipe_triggers es = []"
      by (auto simp add: swipe_triggers_def filter_empty_conv)
  qed
  show ?case
  proof (cases "swipe_triggers (fst ?r) = []")
    case True
    then show ?thesis using one ih by (simp add: r)
  next
    case False
    then have "state (snd ?r) = STATE_DRAGGING"
      using one by simp
    then have "swipe_triggers (fst (run ticks (snd ?r))) = []"
      "state (snd (run ticks (snd ?r))) = STATE_DRAGGING"
      using ih sg by simp_all
    then show ?thesis using one ih False by (auto simp add: r)
  qed
qed

lemma loop_release_gesture:
  "swipe_triggers (fst (loop now (Some []) c)) = []
   \<and> (ON_TAP \<in> set (triggers (fst (loop now (Some []) c))) \<longrightarrow> state c = STATE_START)
   \<and> (state c = STATE_DRAGGING \<longrightarrow> gesture_triggers (fst (loop now (Some []) c)) = [])"
  by (simp add: loop_def sleep_check_def release_logic_def case_prod_beta
      swipe_triggers_def gesture_triggers_def handle_release_triggers)

lemma loop_dragging:
  assumes "state c = STATE_DRAGGING"
  shows "gesture_triggers (fst (loop now (Some ts) c)) = []"
proof (cases ts)
  case Nil
  then show ?thesis using assms loop_release_gesture [of now c] by simp
next
  case (Cons raw_p rest)
  then show ?thesis using assms loop_touch_swipes [of now raw_p rest c] by simp
qed

lemma contact_swipes:
  assumes "touching ticks"
  shows "length (swipe_triggers (fst (run (ticks @ [(t_release, [])]) c))) \<le> 1"
    and "swipe_triggers (fst (run (ticks @ [(t_release, [])]) c)) \<noteq> []
           \<Longrightarrow> ON_TAP \<notin> set (triggers (fst (run (ticks @ [(t_release, [])]) c)))"
    and "state c = STATE_DRAGGING
           \<Longrightarrow> gesture_triggers (fst (run (ticks @ [(t_release, [])]) c)) = []"
proof -
  let ?c1 = "snd (run ticks c)"
  have r: "fst (run (ticks @ [(t_release, [])]) c)
             = fst (run ticks c) @ fst (loop t_release (Some []) ?c1)"
    by (simp add: run_append case_prod_beta)
  note a = run_touching_swipes [OF assms, of c]
  note b = loop_release_gesture [of t_release ?c1]
  show "length (swipe_triggers (fst (run (ticks @ [(t_release, [])]) c))) \<le> 1"
    using a b by (simp add: r)
  show "ON_TAP \<notin> set (triggers (fst (run (ticks @ [(t_release, [])]) c)))"
    if "swipe_triggers (fst (run (ticks @ [(t_release, [])]) c)) \<noteq> []"
    using that a b by (auto simp add: r)
  show "gesture_triggers (fst (run (ticks @ [(t_release, [])]) c)) = []"
    if "state c = STATE_DRAGGING"
    using that a b by (simp add: r)
qed

text \<open>A tick with a touch that is not swallowed runs the gesture engine on the calibrated point.\<close>

lemma process_gestures_cong:
  assumes "state c' = state c" and "start_x c' = start_x c" and "start_y c' = start_y c"
    and "gesture_start_time c' = gesture_start_time c"
    and "on_swipe_left c' = on_swipe_left c" and "on_swipe_right c' = on_swipe_right c"
  shows "fst (process_gestures now p c') = fst (process_gestures now p c)
       \<and> state (snd (process_gestures now p c')) = state (snd (process_gestures now p c))
       \<and> start_x (snd (process_gestures now p c')) = start_x (snd (process_gestures now p c))
       \<and> start_y (snd (process_gestures now p c')) = start_y (snd (process_gestures now p c))
       \<and> gesture_start_time (snd (process_gestures now p c'))
           = gesture_start_time (snd (process_gestures now p c))"
  using assms by (simp add: process_gestures_def Let_def split: TouchState.splits)

lemma process_gestures_only_swipes:
  "gesture_triggers (fst (process_gestures now p c)) = triggers (fst (process_gestures now p c))"
  by (simp add: process_gestures_def Let_def gesture_triggers_def split: TouchState.splits)

lemma pass_through_processed:
  assumes "\<not> ignore_next_release c'" and "state c' = state c" and "start_x c' = start_x c"
    and "start_y c' = start_y c" and "gesture_start_time c' = gesture_start_time c"
    and "on_swipe_left c' = on_swipe_left c" and "on_swipe_right c' = on_swipe_right c"
    and "swap_xy c' = swap_xy c" and "invert_x c' = invert_x c"
    and "invert_y c' = invert_y c" and "display_width c' = display_width c"
    and "display_height c' = display_height c"
  shows "state (snd (pass_through now raw_p c'))
           = state (snd (process_gestures now (apply_calibration c raw_p) c))
       \<and> start_x (snd (pass_through now raw_p c'))
           = start_x (snd (process_gestures now (apply_calibration c raw_p) c))
       \<and> start_y (snd (pass_through now raw_p c'))
           = start_y (snd (process_gestures now (apply_calibration c raw_p) c))
       \<and> gesture_start_time (snd (pass_through now raw_p c'))
           = gesture_start_time (snd (process_gestures now (apply_calibration c raw_p) c))
       \<and> gesture_triggers (fst (pass_through now raw_p c'))
           = triggers (fst (process_gestures now (apply_calibration c raw_p) c))"
proof -
  let ?c1 = "c'\<lparr>last_activity_time := now\<rparr>"
  have q: "apply_calibration ?c1 raw_p = apply_calibration c raw_p"
    using assms by (intro apply_calibration_cong) simp_all
  have g: "fst (process_gestures now (apply_calibration c raw_p) ?c1)
             = fst (process_gestures now (apply_calibration c raw_p) c)
       \<and> state (snd (process_gestures now (apply_calibration c raw_p) ?c1))
           = state (snd (process_gestures now (apply_calibration c raw_p) c))
       \<and> start_x (snd (process_gestures now (apply_calibration c raw_p) ?c1))
           = start_x (snd (process_gestures now (apply_calibration c raw_p) c))
       \<and> start_y (snd (process_gestures now (apply_calibration c raw_p) ?c1))
           = start_y (snd (process_gestures now (apply_calibration c raw_p) c))
       \<and> gesture_start_time (snd (process_gestures now (apply_calibration c raw_p) ?c1))
           = gesture_start_time (snd (process_gestures now (apply_calibration c raw_p) c))"
    using assms by (intro process_gestures_cong) simp_all
  have "pass_through now raw_p c'
          = (fst (process_gestures now (apply_calibration c raw_p) ?c1)
               @ [add_raw_touch_position (tp_id (apply_calibration c raw_p))
                    (tp_x (apply_calibration c raw_p)) (tp_y (apply_calibration c raw_p))
                    (tp_pressure (apply_calibration c raw_p))],
             snd (process_gestures now (apply_calibration c raw_p) ?c1))"
    using assms(1) q by (simp add: pass_through_def Let_def case_prod_beta)
  then show ?thesis
    using g process_gestures_only_swipes [of now "apply_calibration c raw_p" c]
    by (simp add: gesture_triggers_def)
qed

lemma loop_touch_processed:
  assumes "\<not> swallowed now c"
  shows "state (snd (loop now (Some (raw_p # rest)) c))
           = state (snd (process_gestures now (apply_calibration c raw_p) c))
       \<and> start_x (snd (loop now (Some (raw_p # rest)) c))
           = start_x (snd (process_gestures now (apply_calibration c raw_p) c))
       \<and> start_y (snd (loop now (Some (raw_p # rest)) c))
           = start_y (snd (process_gestures now (apply_calibration c raw_p) c))
       \<and> gesture_start_time (snd (loop now (Some (raw_p # rest)) c))
           = gesture_start_time (snd (process_gestures now (apply_calibration c raw_p) c))
       \<and> gesture_triggers (fst (loop now (Some (raw_p # rest)) c))
           = triggers (fst (process_gestures now (apply_calibration c raw_p) c))"
proof -
  from assms have nt: "\<not> ignore_next_release c"
    and ns: "\<not> (suppress_wake_click c
                \<and> (is_sleeping c \<or> sleep_timeout_ms c < now - last_activity_time c))"
    by (simp_all add: swallowed_def)
  let ?c1 = "snd (sleep_check now c)"
  have s1: "gesture_triggers (fst (sleep_check now c)) = []"
    by (simp add: sleep_check_def gesture_triggers_def)
  show ?thesis
  proof (cases "is_sleeping ?c1")
    case False
    then have l: "loop now (Some (raw_p # rest)) c
      = (fst (sleep_check now c) @ fst (pass_through now raw_p ?c1),
         snd (pass_through now raw_p ?c1))"
      by (simp add: loop_def touch_detected_def case_prod_beta)
    have "state (snd (pass_through now raw_p ?c1))
           = state (snd (process_gestures now (apply_calibration c raw_p) c))
       \<and> start_x (snd (pass_through now raw_p ?c1))
           = start_x (snd (process_gestures now (apply_calibration c raw_p) c))
       \<and> start_y (snd (pass_through now raw_p ?c1))
           = start_y (snd (process_gestures now (apply_calibration c raw_p) c))
       \<and> gesture_start_time (snd (pass_through now raw_p ?c1))
           = gesture_start_time (snd (process_gestures now (apply_calibration c raw_p) c))
       \<and> gesture_triggers (fst (pass_through now raw_p ?c1))
           = triggers (fst (process_gestures now (apply_calibration c raw_p) c))"
      using nt by (intro pass_through_processed) (simp_all add: sleep_check_def)
    then show ?thesis
      using s1 by (simp add: l)
  next
    case True
    let ?c2 = "?c1\<lparr>is_sleeping := False, last_activity_time := now\<rparr>"
    from True ns have nsup: "\<not> suppress_wake_click ?c1"
      by (auto simp add: sleep_check_def split: if_splits)
    from True nsup have l: "loop now (Some (raw_p # rest)) c
      = (fst (sleep_check now c) @ trigger_opt (on_wake ?c1) ON_WAKE
           @ fst (pass_through now raw_p ?c2),
         snd (pass_through now raw_p ?c2))"
      by (simp add: loop_def touch_detected_def case_prod_beta Let_def)
    have "state (snd (pass_through now raw_p ?c2))
           = state (snd (process_gestures now (apply_calibration c raw_p) c))
       \<and> start_x (snd (pass_through now raw_p ?c2))
           = start_x (snd (process_gestures now (apply_calibration c raw_p) c))
       \<and> start_y (snd (pass_through now raw_p ?c2))
           = start_y (snd (process_gestures now (apply_calibration c raw_p) c))
       \<and> gesture_start_time (snd (pass_through now raw_p ?c2))
           = gesture_start_time (snd (process_gestures now (apply_calibration c raw_p) c))
       \<and> gesture_triggers (fst (pass_through now raw_p ?c2))
           = triggers (fst (process_gestures now (apply_calibration c raw_p) c))"
      using nt by (intro pass_through_processed) (simp_all add: sleep_check_def)
    then show ?thesis
      using s1 by (simp add: l gesture_triggers_def)
  qed
qed

lemma process_gestures_keeps_start:
  assumes "state c \<noteq> STATE_IDLE"
  shows "start_x (snd (process_gestures now p c)) = start_x c
       \<and> start_y (snd (process_gestures now p c)) = start_y c
       \<and> gesture_start_time (snd (process_gestures now p c)) = gesture_start_time c
       \<and> state (snd (process_gestures now p c)) \<noteq> STATE_IDLE"
  using assms by (simp add: process_gestures_def Let_def split: TouchState.splits)

lemma loop_touch_keeps_start:
  assumes "state c \<noteq> STATE_IDLE"
  shows "start_x (snd (loop now (Some (raw_p # rest)) c)) = start_x c
       \<and> start_y (snd (loop now (Some (raw_p # rest)) c)) = start_y c
       \<and> gesture_start_time (snd (loop now (Some (raw_p # rest)) c)) = gesture_start_time c
       \<and> state (snd (loop now (Some (raw_p # rest)) c)) \<noteq> STATE_IDLE"
proof (cases "swallowed now c")
  case True
  then show ?thesis
    using assms loop_touch_swallowed [of now c raw_p rest] by simp
next
  case False
  then show ?thesis
    using loop_touch_processed [of now c raw_p rest]
      process_gestures_keeps_start [OF assms, of now "apply_calibration c raw_p"]
    by simp
qed

lemma run_keeps_start:
  assumes "touching ticks" and "state c \<noteq> STATE_IDLE"
  shows "start_x (snd (run ticks c)) = start_x c
       \<and> start_y (snd (run ticks c)) = start_y c
       \<and> gesture_start_time (snd (run ticks c)) = gesture_start_time c
       \<and> state (snd (run ticks c)) \<noteq> STATE_IDLE"
  using assms
proof (induction ticks arbitrary: c)
  case Nil
  then show ?case by simp
next
  case (Cons tick ticks)
  obtain now ts where tick: "tick = (now, ts)"
    by (cases tick)
  with Cons.prems obtain raw_p rest where ts: "ts = raw_p # rest" and t: "touching ticks"
    by (cases ts) auto
  note one = loop_touch_keeps_start [OF Cons.prems(2), of now raw_p rest]
  then have "state (snd (loop now (Some (raw_p # rest)) c)) \<noteq> STATE_IDLE"
    by simp
  from Cons.IH [OF t this] one show ?case
    by (simp add: tick ts case_prod_beta)
qed

lemma contact_start:
  assumes "state c = STATE_IDLE" and "\<not> swallowed tf c" and "touching ticks"
  shows "start_x (snd (run ((tf, pf # rf) # ticks) c)) = ucast (tp_x (apply_calibration c pf))
       \<and> start_y (snd (run ((tf, pf # rf) # ticks) c)) = ucast (tp_y (apply_calibration c pf))
       \<and> gesture_start_time (snd (run ((tf, pf # rf) # ticks) c)) = tf
       \<and> state (snd (run ((tf, pf # rf) # ticks) c)) \<noteq> STATE_IDLE"
proof -
  let ?cd = "snd (loop tf (Some (pf # rf)) c)"
  have r: "snd (run ((tf, pf # rf) # ticks) c) = snd (run ticks ?cd)"
    by (simp add: case_prod_beta)
  have f: "state ?cd = STATE_START \<and> start_x ?cd = ucast (tp_x (apply_calibration c pf))
       \<and> start_y ?cd = ucast (tp_y (apply_calibration c pf))
       \<and> gesture_start_time ?cd = tf"
    using loop_touch_processed [OF assms(2), where raw_p = pf and rest = rf]
    by (simp add: process_gestures_idle [OF assms(1)])
  then have "state ?cd \<noteq> STATE_IDLE"
    by simp
  from run_keeps_start [OF assms(3) this] f show ?thesis
    unfolding r by simp
qed

lemma contact_next:
  assumes "state c = STATE_IDLE" and "\<not> swallowed tf c" and "touching ticks"
    and "state (snd (run ((tf, pf # rf) # ticks) c)) = STATE_START"
    and "\<not> swallowed now (snd (run ((tf, pf # rf) # ticks) c))"
    and "sint (tp_x (apply_calibration c pf)) < 2 ^ 15"
  shows "(state (snd (loop now (Some (raw_p # rest)) (snd (run ((tf, pf # rf) # ticks) c))))
            = STATE_DRAGGING)
           = (30 < \<bar>sint (tp_x (apply_calibration c raw_p))
                      - sint (tp_x (apply_calibration c pf))\<bar>)
       \<and> gesture_triggers
            (fst (loop now (Some (raw_p # rest)) (snd (run ((tf, pf # rf) # ticks) c))))
           = (if 30 < sint (tp_x (apply_calibration c raw_p))
                        - sint (tp_x (apply_calibration c pf))
              then (if on_swipe_right c then [ON_SWIPE_RIGHT] else [])
              else if sint (tp_x (apply_calibration c raw_p))
                        - sint (tp_x (apply_calibration c pf)) < - 30
              then (if on_swipe_left c then [ON_SWIPE_LEFT] else [])
              else [])"
proof -
  let ?cd = "snd (run ((tf, pf # rf) # ticks) c)"
  let ?qf = "apply_calibration c pf"
  let ?q = "apply_calibration c raw_p"
  note cfg = run_keeps_settings [of "(tf, pf # rf) # ticks" c]
  have q: "apply_calibration ?cd raw_p = ?q"
    using cfg by (intro apply_calibration_cong) simp_all
  have sx: "start_x ?cd = ucast (tp_x ?qf)"
    using contact_start [OF assms(1-3), where pf = pf and rf = rf] by blast
  have x0: "sint (start_x ?cd) = sint (tp_x ?qf)"
    unfolding sx using assms(6) apply_calibration_nonneg(1) [of c pf]
    by (intro ucast_int16_roundtrip) simp_all
  have lo: "- (2 ^ 31) < sint (tp_x ?q) - sint (start_x ?cd)"
    using apply_calibration_nonneg(1) [of c raw_p] assms(6) unfolding x0 by simp
  have hi: "sint (tp_x ?q) - sint (start_x ?cd) < 2 ^ 31"
    using apply_calibration_nonneg(1) [of c pf] sint_lt [of "tp_x ?q"] unfolding x0 by simp
  note pg = process_gestures_start [OF assms(4) lo hi, where now = now]
  note lp = loop_touch_processed [OF assms(5), where raw_p = raw_p and rest = rest, unfolded q]
  have on: "on_swipe_right ?cd = on_swipe_right c" "on_swipe_left ?cd = on_swipe_left c"
    using cfg by blast+
  show ?thesis
    using pg lp unfolding x0 on by presburger
qed

text \<open>
  C7, as the code has it. The gesture engine over one contact.
  \<^item> The first sample of a contact (state \<open>STATE_IDLE\<close>) records the start position and
    time and calls no trigger; the recorded \<open>start_x\<close> is the sample's x whenever that
    fits 16 bits.
  \<^item> In \<open>STATE_START\<close> the state becomes \<open>STATE_DRAGGING\<close> exactly when
    \<open>abs(p.x - start_x_) > 30\<close>, and nothing else of the component changes: the start
    position and time are not recorded again. The y coordinate of the sample plays no
    part. Where the subtraction does not overflow, the test is \<open>30 < |x - start_x|\<close> on
    the integers, and on the transition the swipe-right trigger is called for a positive
    displacement and the swipe-left trigger for a negative one (reaching the handler when
    one is registered), never both; without the transition no trigger is called.
  \<^item> In \<open>STATE_DRAGGING\<close> a further sample changes nothing and calls no trigger, the
    release calls none, and no tap or swipe trigger is called on any later tick of the
    contact or on the tick of its release.
  \<^item> Over all the ticks of a contact and its release at most one swipe trigger is called,
    and if one is called, the tap trigger is not.
  \<^item> A tick that the wake-suppression trap swallows leaves the state as it is and calls
    no tap or swipe trigger.
  \<^item> While a contact is down (state other than \<open>STATE_IDLE\<close>), no tick changes the
    recorded start position and time.
  \<^item> For a contact whose first tick is not swallowed: after any number of its ticks the
    start fields hold the first calibrated sample (its low 16 bits) and the time of the
    first tick. If that first calibrated x is at most 32767, then on every later tick
    that finds the state \<open>STATE_START\<close> and is not swallowed, the state becomes
    \<open>STATE_DRAGGING\<close> exactly when the calibrated x differs from the first one by more
    than 30, with swipe-right for a positive and swipe-left for a negative difference
    and no other tap or swipe trigger.
\<close>

theorem swipe_classification:
  "(state c = STATE_IDLE \<longrightarrow>
      process_gestures now p c =
        ([], c\<lparr>state := STATE_START, start_x := ucast (tp_x p),
               start_y := ucast (tp_y p), gesture_start_time := now\<rparr>)
      \<and> (- (2 ^ 15) \<le> sint (tp_x p) \<and> sint (tp_x p) < 2 ^ 15 \<longrightarrow>
           sint (start_x (snd (process_gestures now p c))) = sint (tp_x p)))
   \<and> (state c = STATE_START \<longrightarrow>
      state (snd (process_gestures now p c)) =
        (if SWIPE_THRESHOLD <s abs_int (tp_x p - scast (start_x c))
         then STATE_DRAGGING else STATE_START)
      \<and> snd (process_gestures now p c) =
        (if SWIPE_THRESHOLD <s abs_int (tp_x p - scast (start_x c))
         then c\<lparr>state := STATE_DRAGGING\<rparr> else c)
      \<and> process_gestures now (p\<lparr>tp_y := y\<rparr>) c = process_gestures now p c
      \<and> (- (2 ^ 31) < sint (tp_x p) - sint (start_x c)
           \<and> sint (tp_x p) - sint (start_x c) < 2 ^ 31 \<longrightarrow>
          (state (snd (process_gestures now p c)) = STATE_DRAGGING)
            = (30 < \<bar>sint (tp_x p) - sint (start_x c)\<bar>)
          \<and> triggers (fst (process_gestures now p c)) =
              (if 30 < sint (tp_x p) - sint (start_x c)
               then (if on_swipe_right c then [ON_SWIPE_RIGHT] else [])
               else if sint (tp_x p) - sint (start_x c) < - 30
               then (if on_swipe_left c then [ON_SWIPE_LEFT] else [])
               else [])))
   \<and> (state c = STATE_DRAGGING \<longrightarrow>
      process_gestures now p c = ([], c)
      \<and> handle_release now c = []
      \<and> gesture_triggers (fst (loop now (Some ts) c)) = []
      \<and> (touching ticks \<longrightarrow>
           gesture_triggers (fst (run (ticks @ [(t_release, [])]) c)) = []))
   \<and> (touching ticks \<longrightarrow>
      length (swipe_triggers (fst (run (ticks @ [(t_release, [])]) c))) \<le> 1
      \<and> (swipe_triggers (fst (run (ticks @ [(t_release, [])]) c)) \<noteq> [] \<longrightarrow>
           ON_TAP \<notin> set (triggers (fst (run (ticks @ [(t_release, [])]) c)))))
   \<and> (swallowed now c \<longrightarrow>
      state (snd (loop now (Some (raw_p # rest)) c)) = state c
      \<and> gesture_triggers (fst (loop now (Some (raw_p # rest)) c)) = [])
   \<and> (touching ticks \<and> state c \<noteq> STATE_IDLE \<longrightarrow>
      start_x (snd (run ticks c)) = start_x c
      \<and> start_y (snd (run ticks c)) = start_y c
      \<and> gesture_start_time (snd (run ticks c)) = gesture_start_time c
      \<and> state (snd (run ticks c)) \<noteq> STATE_IDLE)
   \<and> (touching ticks \<and> state c = STATE_IDLE \<and> \<not> swallowed tf c \<longrightarrow>
      start_x (snd (run ((tf, pf # rf) # ticks) c)) = ucast (tp_x (apply_calibration c pf))
      \<and> start_y (snd (run ((tf, pf # rf) # ticks) c)) = ucast (tp_y (apply_calibration c pf))
      \<and> gesture_start_time (snd (run ((tf, pf # rf) # ticks) c)) = tf
      \<and> state (snd (run ((tf, pf # rf) # ticks) c)) \<noteq> STATE_IDLE
      \<and> (state (snd (run ((tf, pf # rf) # ticks) c)) = STATE_START
           \<and> \<not> swallowed now (snd (run ((tf, pf # rf) # ticks) c))
           \<and> sint (tp_x (apply_calibration c pf)) < 2 ^ 15 \<longrightarrow>
          (state (snd (loop now (Some (raw_p # rest)) (snd (run ((tf, pf # rf) # ticks) c))))
             = STATE_DRAGGING)
            = (30 < \<bar>sint (tp_x (apply_calibration c raw_p))
                       - sint (tp_x (apply_calibration c pf))\<bar>)
          \<and> gesture_triggers
               (fst (loop now (Some (raw_p # rest)) (snd (run ((tf, pf # rf) # ticks) c))))
              = (if 30 < sint (tp_x (apply_calibration c raw_p))
                           - sint (tp_x (apply_calibration c pf))
                 then (if on_swipe_right c then [ON_SWIPE_RIGHT] else [])
                 else if sint (tp_x (apply_calibration c raw_p))
                           - sint (tp_x (apply_calibration c pf)) < - 30
                 then (if on_swipe_left c then [ON_SWIPE_LEFT] else [])
                 else [])))"
proof -
  have idle: "process_gestures now p c =
        ([], c\<lparr>state := STATE_START, start_x := ucast (tp_x p),
               start_y := ucast (tp_y p), gesture_start_time := now\<rparr>)
      \<and> (- (2 ^ 15) \<le> sint (tp_x p) \<and> sint (tp_x p) < 2 ^ 15 \<longrightarrow>
           sint (start_x (snd (process_gestures now p c))) = sint (tp_x p))"
    if "state c = STATE_IDLE"
    using that ucast_int16_roundtrip [of "tp_x p"] by (simp add: process_gestures_idle)
  have start: "state (snd (process_gestures now p c)) =
        (if SWIPE_THRESHOLD <s abs_int (tp_x p - scast (start_x c))
         then STATE_DRAGGING else STATE_START)
      \<and> snd (process_gestures now p c) =
        (if SWIPE_THRESHOLD <s abs_int (tp_x p - scast (start_x c))
         then c\<lparr>state := STATE_DRAGGING\<rparr> else c)
      \<and> process_gestures now (p\<lparr>tp_y := y\<rparr>) c = process_gestures now p c
      \<and> (- (2 ^ 31) < sint (tp_x p) - sint (start_x c)
           \<and> sint (tp_x p) - sint (start_x c) < 2 ^ 31 \<longrightarrow>
          (state (snd (process_gestures now p c)) = STATE_DRAGGING)
            = (30 < \<bar>sint (tp_x p) - sint (start_x c)\<bar>)
          \<and> triggers (fst (process_gestures now p c)) =
              (if 30 < sint (tp_x p) - sint (start_x c)
               then (if on_swipe_right c then [ON_SWIPE_RIGHT] else [])
               else if sint (tp_x p) - sint (start_x c) < - 30
               then (if on_swipe_left c then [ON_SWIPE_LEFT] else [])
               else []))"
    if s: "state c = STATE_START"
  proof -
    have "snd (process_gestures now p c) =
        (if SWIPE_THRESHOLD <s abs_int (tp_x p - scast (start_x c))
         then c\<lparr>state := STATE_DRAGGING\<rparr> else c)"
      using s by (simp add: process_gestures_def Let_def)
    then show ?thesis
      using process_gestures_start_word(1) [OF s, where now = now and p = p]
        process_gestures_start_word(2) [OF s, where now = now and p = p and y = y]
        process_gestures_start [OF s, where now = now and p = p]
      by simp
  qed
  have drag: "process_gestures now p c = ([], c)
      \<and> handle_release now c = []
      \<and> gesture_triggers (fst (loop now (Some ts) c)) = []
      \<and> (touching ticks \<longrightarrow>
           gesture_triggers (fst (run (ticks @ [(t_release, [])]) c)) = [])"
    if d: "state c = STATE_DRAGGING"
    using d process_gestures_dragging [OF d] loop_dragging [OF d] contact_swipes(3) [OF _ d]
    by (simp add: handle_release_def)
  have once: "length (swipe_triggers (fst (run (ticks @ [(t_release, [])]) c))) \<le> 1
      \<and> (swipe_triggers (fst (run (ticks @ [(t_release, [])]) c)) \<noteq> [] \<longrightarrow>
           ON_TAP \<notin> set (triggers (fst (run (ticks @ [(t_release, [])]) c))))"
    if t: "touching ticks"
    using contact_swipes(1,2) [OF t] by blast
  have swal: "state (snd (loop now (Some (raw_p # rest)) c)) = state c
      \<and> gesture_triggers (fst (loop now (Some (raw_p # rest)) c)) = []"
    if "swallowed now c"
    using loop_touch_swallowed [OF that, of raw_p rest] by simp
  have keep: "start_x (snd (run ticks c)) = start_x c
      \<and> start_y (snd (run ticks c)) = start_y c
      \<and> gesture_start_time (snd (run ticks c)) = gesture_start_time c
      \<and> state (snd (run ticks c)) \<noteq> STATE_IDLE"
    if "touching ticks \<and> state c \<noteq> STATE_IDLE"
    using that run_keeps_start by blast
  have contact: "start_x (snd (run ((tf, pf # rf) # ticks) c)) = ucast (tp_x (apply_calibration c pf))
      \<and> start_y (snd (run ((tf, pf # rf) # ticks) c)) = ucast (tp_y (apply_calibration c pf))
      \<and> gesture_start_time (snd (run ((tf, pf # rf) # ticks) c)) = tf
      \<and> state (snd (run ((tf, pf # rf) # ticks) c)) \<noteq> STATE_IDLE
      \<and> (state (snd (run ((tf, pf # rf) # ticks) c)) = STATE_START
           \<and> \<not> swallowed now (snd (run ((tf, pf # rf) # ticks) c))
           \<and> sint (tp_x (apply_calibration c pf)) < 2 ^ 15 \<longrightarrow>
          (state (snd (loop now (Some (raw_p # rest)) (snd (run ((tf, pf # rf) # ticks) c))))
             = STATE_DRAGGING)
            = (30 < \<bar>sint (tp_x (apply_calibration c raw_p))
                       - sint (tp_x (apply_calibration c pf))\<bar>)
          \<and> gesture_triggers
               (fst (loop now (Some (raw_p # rest)) (snd (run ((tf, pf # rf) # ticks) c))))
              = (if 30 < sint (tp_x (apply_calibration c raw_p))
                           - sint (tp_x (apply_calibration c pf))
                 then (if on_swipe_right c then [ON_SWIPE_RIGHT] else [])
                 else if sint (tp_x (apply_calibration c raw_p))
                           - sint (tp_x (apply_calibration c pf)) < - 30
                 then (if on_swipe_left c then [ON_SWIPE_LEFT] else [])
                 else []))"
    if h: "touching ticks \<and> state c = STATE_IDLE \<and> \<not> swallowed tf c"
  proof -
    from h have a: "state c = STATE_IDLE" and b: "\<not> swallowed tf c" and t: "touching ticks"
      by simp_all
    note cs = contact_start [OF a b t, where pf = pf and rf = rf]
    note cn = contact_next [OF a b t, where pf = pf and rf = rf and now = now
        and raw_p = raw_p and rest = rest]
    from cs cn show ?thesis
      by blast
  qed
  from idle start drag once swal keep contact show ?thesis
    by blast
qed

theorem swipe_classification_witness:
  "state scenario_component = STATE_IDLE
   \<and> sint (start_x (snd (process_gestures 100 (touch_at 100 100) scenario_component))) = 100
   \<and> state pending_component = STATE_START
   \<and> process_gestures 150 (touch_at 90 50\<lparr>tp_y := 200\<rparr>) pending_component
       = process_gestures 150 (touch_at 90 50) pending_component
   \<and> state (snd (process_gestures 150 (touch_at 90 50) pending_component)) = STATE_DRAGGING
   \<and> triggers (fst (process_gestures 150 (touch_at 90 50) pending_component)) = [ON_SWIPE_RIGHT]
   \<and> triggers (fst (process_gestures 150 (touch_at 10 50) pending_component)) = [ON_SWIPE_LEFT]
   \<and> state (snd (process_gestures 150 (touch_at 60 50) pending_component)) = STATE_START
   \<and> state dragging_component = STATE_DRAGGING
   \<and> process_gestures 150 (touch_at 300 50) dragging_component = ([], dragging_component)
   \<and> handle_release 150 dragging_component = []
   \<and> touching swipe_right_contact
   \<and> swipe_triggers (fst (run (swipe_right_contact @ [(250, [])]) scenario_component))
       = [ON_SWIPE_RIGHT]
   \<and> ON_TAP \<notin> set (triggers (fst (run (swipe_right_contact @ [(250, [])]) scenario_component)))
   \<and> snd (process_gestures 150 (touch_at 60 50) pending_component) = pending_component
   \<and> swallowed 1200 pending_component
   \<and> state (snd (loop 1200 (Some [touch_at 90 50]) pending_component)) = STATE_START
   \<and> touching slow_contact
   \<and> start_x (snd (run slow_contact pending_component)) = start_x pending_component
   \<and> gesture_start_time (snd (run slow_contact pending_component))
       = gesture_start_time pending_component
   \<and> \<not> swallowed 100 scenario_component
   \<and> state (snd (run ((100, [touch_at 100 100]) # slow_contact) scenario_component))
       = STATE_START
   \<and> \<not> swallowed 200 (snd (run ((100, [touch_at 100 100]) # slow_contact) scenario_component))
   \<and> sint (tp_x (apply_calibration scenario_component (touch_at 100 100))) < 2 ^ 15
   \<and> sint (start_x (snd (run ((100, [touch_at 100 100]) # slow_contact) scenario_component)))
       = 100
   \<and> gesture_start_time (snd (run ((100, [touch_at 100 100]) # slow_contact)
                                 scenario_component)) = 100
   \<and> state (snd (loop 200 (Some [touch_at 140 100])
                    (snd (run ((100, [touch_at 100 100]) # slow_contact) scenario_component))))
       = STATE_DRAGGING
   \<and> gesture_triggers (fst (loop 200 (Some [touch_at 140 100])
                    (snd (run ((100, [touch_at 100 100]) # slow_contact) scenario_component))))
       = [ON_SWIPE_RIGHT]"
proof -
  have f: "state scenario_component = STATE_IDLE" "state pending_component = STATE_START"
    "state dragging_component = STATE_DRAGGING" "touching swipe_right_contact"
    "start_x pending_component = 50" "on_swipe_right pending_component"
    "on_swipe_left pending_component" "touching slow_contact"
    "on_swipe_right scenario_component"
    by (simp_all add: fixture_defs dragging_component_def swipe_right_contact_def
        slow_contact_def)
  have sw: "swipe_triggers (fst (run (swipe_right_contact @ [(250, [])]) scenario_component))
       = [ON_SWIPE_RIGHT]"
    by (simp add: swipe_right_contact_def tick_defs fixture_defs process_gestures_def
        apply_calibration_def abs_int_def SWIPE_THRESHOLD_def word_sless_alt Let_def
        handle_release_def swipe_triggers_def)
  have cal: "apply_calibration scenario_component (touch_at 100 100) = touch_at 100 100"
    "apply_calibration scenario_component (touch_at 140 100) = touch_at 140 100"
    by (simp_all add: fixture_defs apply_calibration_def Let_def word_sless_alt)
  have h: "swallowed 1200 pending_component" "\<not> swallowed 100 scenario_component"
    "state (snd (run ((100, [touch_at 100 100]) # slow_contact) scenario_component))
       = STATE_START"
    "\<not> swallowed 200 (snd (run ((100, [touch_at 100 100]) # slow_contact) scenario_component))"
    "sint (tp_x (apply_calibration scenario_component (touch_at 100 100))) < 2 ^ 15"
    by (simp_all add: swallowed_def slow_contact_def tick_defs fixture_defs Let_def
        process_gestures_def apply_calibration_def abs_int_def SWIPE_THRESHOLD_def
        word_sless_alt)
  note i = swipe_classification
    [where c = scenario_component and p = "touch_at 100 100" and now = 100
      and ticks = swipe_right_contact and t_release = 250]
  note r = swipe_classification
    [where c = pending_component and p = "touch_at 90 50" and now = 150 and y = 200]
  note l = swipe_classification
    [where c = pending_component and p = "touch_at 10 50" and now = 150]
  note n = swipe_classification
    [where c = pending_component and p = "touch_at 60 50" and now = 150]
  note d = swipe_classification
    [where c = dragging_component and p = "touch_at 300 50" and now = 150]
  note s = swipe_classification
    [where c = pending_component and now = 1200 and raw_p = "touch_at 90 50" and rest = "[]"
      and ticks = slow_contact]
  note k = swipe_classification
    [where c = scenario_component and tf = 100 and pf = "touch_at 100 100" and rf = "[]"
      and ticks = slow_contact and now = 200 and raw_p = "touch_at 140 100" and rest = "[]"]
  have 1: "sint (start_x (snd (process_gestures 100 (touch_at 100 100) scenario_component))) = 100"
    using i [THEN conjunct1] f by (simp add: touch_at_def)
  have tapfree: "ON_TAP \<notin> set (triggers (fst (run (swipe_right_contact @ [(250, [])]) scenario_component)))"
    using i [THEN conjunct2, THEN conjunct2, THEN conjunct2, THEN conjunct1] f sw by simp
  have 2: "process_gestures 150 (touch_at 90 50\<lparr>tp_y := 200\<rparr>) pending_component
       = process_gestures 150 (touch_at 90 50) pending_component"
    "state (snd (process_gestures 150 (touch_at 90 50) pending_component)) = STATE_DRAGGING"
    "triggers (fst (process_gestures 150 (touch_at 90 50) pending_component)) = [ON_SWIPE_RIGHT]"
    using r [THEN conjunct2, THEN conjunct1] f
    by (simp_all add: touch_at_def SWIPE_THRESHOLD_def abs_int_def word_sless_alt)
  have 3: "triggers (fst (process_gestures 150 (touch_at 10 50) pending_component)) = [ON_SWIPE_LEFT]"
    using l [THEN conjunct2, THEN conjunct1] f
    by (simp add: touch_at_def SWIPE_THRESHOLD_def abs_int_def word_sless_alt)
  have 4: "state (snd (process_gestures 150 (touch_at 60 50) pending_component)) = STATE_START"
    "snd (process_gestures 150 (touch_at 60 50) pending_component) = pending_component"
    using n [THEN conjunct2, THEN conjunct1] f
    by (simp_all add: touch_at_def SWIPE_THRESHOLD_def abs_int_def word_sless_alt)
  have 5: "process_gestures 150 (touch_at 300 50) dragging_component = ([], dragging_component)"
    "handle_release 150 dragging_component = []"
    using d [THEN conjunct2, THEN conjunct2, THEN conjunct1] f by simp_all
  have 6: "state (snd (loop 1200 (Some [touch_at 90 50]) pending_component)) = STATE_START"
    using s [THEN conjunct2, THEN conjunct2, THEN conjunct2, THEN conjunct2, THEN conjunct1]
      h(1) f(2) by simp
  have 7: "start_x (snd (run slow_contact pending_component)) = start_x pending_component"
    "gesture_start_time (snd (run slow_contact pending_component))
       = gesture_start_time pending_component"
    using s [THEN conjunct2, THEN conjunct2, THEN conjunct2, THEN conjunct2, THEN conjunct2,
        THEN conjunct1] f(2,8) by simp_all
  note k7 = k [THEN conjunct2, THEN conjunct2, THEN conjunct2, THEN conjunct2, THEN conjunct2,
        THEN conjunct2, rule_format, OF conjI [OF f(8) conjI [OF f(1) h(2)]]]
  have 8: "sint (start_x (snd (run ((100, [touch_at 100 100]) # slow_contact) scenario_component)))
       = 100"
    "gesture_start_time (snd (run ((100, [touch_at 100 100]) # slow_contact)
                                 scenario_component)) = 100"
    using k7 [THEN conjunct1] k7 [THEN conjunct2, THEN conjunct2, THEN conjunct1]
    by (simp_all only: cal) (simp_all add: touch_at_def)
  note k8 = k7 [THEN conjunct2, THEN conjunct2, THEN conjunct2, THEN conjunct2, rule_format,
      OF conjI [OF h(3) conjI [OF h(4) h(5)]], unfolded cal]
  have 9: "state (snd (loop 200 (Some [touch_at 140 100])
                    (snd (run ((100, [touch_at 100 100]) # slow_contact) scenario_component))))
       = STATE_DRAGGING"
    "gesture_triggers (fst (loop 200 (Some [touch_at 140 100])
                    (snd (run ((100, [touch_at 100 100]) # slow_contact) scenario_component))))
       = [ON_SWIPE_RIGHT]"
    using k8 f(9) by (simp_all add: touch_at_def)
  from f h 1 tapfree 2 3 4 5 6 7 8 9 sw show ?thesis
    by blast
qed

text \<open>
  C7 as stated does not hold in three situations. A contact that rests at x = 40000 has
  its start stored as 40000 - 65536 in the 16-bit field, and its second sample, with no
  displacement at all, calls the swipe-right trigger. A contact that is dragging and
  is seen again more than the sleep timeout later has \<open>on_sleep\<close> and \<open>on_wake\<close> called
  while it is down. And an undecided contact that started at x = 50 and is seen at
  x = 90 on a tick that the wake trap swallows stays undecided.
\<close>

theorem swipe_without_movement:
  "far_contact = [(100, [touch_at 40000 50]), (150, [touch_at 40000 50])]
   \<and> triggers (fst (run far_contact scenario_component)) = [ON_SWIPE_RIGHT]
   \<and> state (snd (run swipe_right_contact scenario_component)) = STATE_DRAGGING
   \<and> triggers (fst (loop 1300 (Some [touch_at 150 100])
                        (snd (run swipe_right_contact scenario_component))))
       = [ON_SLEEP, ON_WAKE]
   \<and> state pending_component = STATE_START
   \<and> sint (start_x pending_component) = 50
   \<and> state (snd (loop 1200 (Some [touch_at 90 50]) pending_component)) = STATE_START"
  by (simp add: far_contact_def swipe_right_contact_def tick_defs fixture_defs Let_def
      process_gestures_def apply_calibration_def abs_int_def SWIPE_THRESHOLD_def
      word_sless_alt)

section \<open>Sleep and wake on one tick\<close>

lemma process_gestures_sleep_wake:
  "filter is_sleep_wake (triggers (fst (process_gestures now p c))) = []"
  by (simp add: process_gestures_def Let_def split: TouchState.splits)

lemma handle_release_sleep_wake:
  "filter is_sleep_wake (triggers (handle_release now c)) = []"
  by (simp add: handle_release_triggers)

lemma pass_through_sleep_wake:
  "filter is_sleep_wake (triggers (fst (pass_through now raw_p c))) = []"
  by (simp add: pass_through_def Let_def case_prod_beta process_gestures_sleep_wake)

lemma release_logic_sleep_wake:
  "filter is_sleep_wake (triggers (fst (release_logic now c))) = []"
  by (simp add: release_logic_def handle_release_sleep_wake)

text \<open>
  C3, as the code has it. On one tick \<open>on_sleep\<close> is called at most once and \<open>on_wake\<close> at
  most once, \<open>on_sleep\<close> first. \<open>on_sleep\<close> is called exactly when the device was awake
  at the start of the tick and the idle timeout is exceeded; \<open>on_wake\<close> is called
  exactly when the source has a touch and the device is asleep after the sleep check.
  So both are called on the same tick, for the same sample, exactly when the device was
  awake at the start of the tick, the idle timeout is exceeded and a sample is present;
  in every other case at most one of them is called.
\<close>

theorem sleep_wake_per_tick:
  "filter is_sleep_wake (triggers (fst (loop now src c))) =
     (if src \<noteq> None \<and> sleep_timeout_ms c < now - last_activity_time c
         \<and> \<not> is_sleeping c \<and> on_sleep c
      then [ON_SLEEP] else [])
     @ (if src \<noteq> None \<and> src \<noteq> Some []
           \<and> (is_sleeping c \<or> sleep_timeout_ms c < now - last_activity_time c)
           \<and> on_wake c
        then [ON_WAKE] else [])"
proof (cases src)
  case None
  then show ?thesis by (simp add: loop_def)
next
  case (Some ts)
  show ?thesis
  proof (cases ts)
    case Nil
    with Some show ?thesis
      using release_logic_sleep_wake [of now c]
        release_logic_sleep_wake [of now "c\<lparr>is_sleeping := True\<rparr>"]
      by (simp add: loop_def sleep_check_def case_prod_beta)
  next
    case (Cons raw_p rest)
    with Some show ?thesis
      using pass_through_sleep_wake
      by (simp add: loop_def sleep_check_def touch_detected_def Let_def case_prod_beta)
  qed
qed

text \<open>
  C3 as stated does not hold: the component is awake, a tick at 990 ms without a touch
  does nothing, and the tick at 1001 ms (timeout 1000 ms) that carries a sample calls
  \<open>on_sleep\<close> and then \<open>on_wake\<close>.
\<close>

theorem sleep_and_wake_same_tick:
  "fst (run [(990, [])] scenario_component) = []
   \<and> triggers (fst (loop 1001 (Some [touch_at 50 50])
                        (snd (run [(990, [])] scenario_component))))
       = [ON_SLEEP, ON_WAKE]"
  by (simp add: tick_defs fixture_defs Let_def)

section \<open>Gesture state and contact\<close>

lemma process_gestures_not_idle:
  "state (snd (process_gestures now p c)) \<noteq> STATE_IDLE"
  by (simp add: process_gestures_def Let_def split: TouchState.splits)

lemma loop_release_idle: "state (snd (loop now (Some []) c)) = STATE_IDLE"
  by (simp add: loop_def sleep_check_def release_logic_def case_prod_beta)

lemma pass_through_mode:
  "\<not> ignore_next_release (snd (pass_through now raw_p c))
     \<Longrightarrow> state (snd (pass_through now raw_p c)) \<noteq> STATE_IDLE"
  using process_gestures_not_idle
  by (simp add: pass_through_def Let_def case_prod_beta split: if_splits)

lemma loop_touch_mode:
  assumes "\<not> ignore_next_release (snd (loop now (Some (raw_p # rest)) c))"
  shows "state (snd (loop now (Some (raw_p # rest)) c)) \<noteq> STATE_IDLE"
  using assms pass_through_mode
  by (simp add: loop_def sleep_check_def touch_detected_def Let_def case_prod_beta
      split: if_splits)

text \<open>
  C4, as the code has it. After any sequence of ticks: if the last tick saw no touch,
  the state is \<open>STATE_IDLE\<close>; if the wake-suppression trap is not armed after the last
  tick, the state is \<open>STATE_IDLE\<close> if and only if that tick saw no touch; and if the
  last tick saw a touch and the trap is armed after it, the state is the one before
  that tick.
\<close>

theorem mode_idle_unless_trapped:
  assumes "run (ticks @ [(now, src_touches)]) c = (es, c')"
  shows "(src_touches = [] \<longrightarrow> state c' = STATE_IDLE)
       \<and> (\<not> ignore_next_release c' \<longrightarrow> (state c' = STATE_IDLE) = (src_touches = []))
       \<and> (src_touches \<noteq> [] \<and> ignore_next_release c' \<longrightarrow>
            state c' = state (snd (run ticks c)))"
proof -
  have c': "c' = snd (loop now (Some src_touches) (snd (run ticks c)))"
    using assms by (simp add: run_append case_prod_beta)
  show ?thesis
  proof (cases src_touches)
    case Nil
    then show ?thesis by (simp add: c' loop_release_idle)
  next
    case (Cons raw_p rest)
    then show ?thesis
      using loop_touch_mode [of now raw_p rest "snd (run ticks c)"]
        loop_touch_swallowed [of now "snd (run ticks c)" raw_p rest]
      by (auto simp add: c' loop_touch_trap)
  qed
qed

theorem mode_idle_unless_trapped_witness:
  "state (snd (run ([(100, [touch_at 50 50])] @ [(300, [])]) scenario_component)) = STATE_IDLE
   \<and> \<not> ignore_next_release (snd (run ([] @ [(100, [touch_at 50 50])]) scenario_component))
   \<and> state (snd (run ([] @ [(100, [touch_at 50 50])]) scenario_component)) \<noteq> STATE_IDLE
   \<and> [touch_at 50 50] \<noteq> []
   \<and> ignore_next_release
        (snd (run ([(1001, [])] @ [(1100, [touch_at 50 50])]) scenario_component))
   \<and> state (snd (run ([(1001, [])] @ [(1100, [touch_at 50 50])]) scenario_component))
       = state (snd (run [(1001, [])] scenario_component))"
proof -
  have a: "\<not> ignore_next_release (snd (run ([] @ [(100, [touch_at 50 50])]) scenario_component))"
    by (simp add: tick_defs scenario_component_def setup_component_def Let_def
        process_gestures_def case_prod_beta)
  have b: "ignore_next_release
        (snd (run ([(1001, [])] @ [(1100, [touch_at 50 50])]) scenario_component))"
    by (simp add: tick_defs fixture_defs Let_def)
  show ?thesis
    using a b
      mode_idle_unless_trapped [OF surjective_pairing,
        where ticks = "[(100, [touch_at 50 50])]" and now = 300 and src_touches = "[]"
          and c = scenario_component]
      mode_idle_unless_trapped [OF surjective_pairing,
        where ticks = "[]" and now = 100 and src_touches = "[touch_at 50 50]"
          and c = scenario_component]
      mode_idle_unless_trapped [OF surjective_pairing,
        where ticks = "[(1001, [])]" and now = 1100 and src_touches = "[touch_at 50 50]"
          and c = scenario_component]
    by simp
qed

text \<open>
  C4 as stated does not hold on a tick with the trap armed: the device falls asleep
  (tick at 1001 ms), the contact that wakes it with \<open>suppress_wake_click\<close> set is down
  (tick at 1100 ms), and the state is \<open>STATE_IDLE\<close>.
\<close>

theorem idle_while_contact_down:
  "state (snd (run [(1001, []), (1100, [touch_at 50 50])] scenario_component)) = STATE_IDLE
   \<and> ignore_next_release (snd (run [(1001, []), (1100, [touch_at 50 50])] scenario_component))
   \<and> [touch_at 50 50] \<noteq> []"
  by (simp add: tick_defs fixture_defs Let_def)

section \<open>The wake-suppression trap\<close>

text \<open>
  C1 on the code. The device falls asleep (tick at 1001 ms), a contact wakes it and arms
  the trap (1100 ms), the contact is released (1200 ms): the trap is still armed, because
  the reset of \<open>ignore_next_release_\<close> sits inside the branch for a state other than
  \<open>STATE_IDLE\<close> and a suppressed contact never leaves \<open>STATE_IDLE\<close>. The next contact, a
  200 ms tap at (50, 50), forwards nothing and calls no trigger.
\<close>

theorem wake_trap_never_cleared:
  "run [(1001, []), (1100, [touch_at 50 50]), (1200, []),
        (1300, [touch_at 50 50]), (1500, [])] scenario_component
     = ([Trigger ON_SLEEP, Trigger ON_WAKE],
        scenario_component\<lparr>last_activity_time := 1300, ignore_next_release := True\<rparr>)
   \<and> ignore_next_release
        (snd (run [(1001, []), (1100, [touch_at 50 50]), (1200, [])] scenario_component))"
  by (simp add: tick_defs scenario_component_def setup_component_def trigger_opt_def Let_def)

lemma trapped_loop:
  assumes "ignore_next_release c" and "state c = STATE_IDLE"
  shows "forwarded (fst (loop now (Some ts) c)) = []
       \<and> gesture_triggers (fst (loop now (Some ts) c)) = []
       \<and> ignore_next_release (snd (loop now (Some ts) c))
       \<and> state (snd (loop now (Some ts) c)) = STATE_IDLE
       \<and> start_x (snd (loop now (Some ts) c)) = start_x c
       \<and> start_y (snd (loop now (Some ts) c)) = start_y c
       \<and> gesture_start_time (snd (loop now (Some ts) c)) = gesture_start_time c"
  using assms
  by (cases ts)
    (simp_all add: tick_defs Let_def case_prod_beta gesture_triggers_def)

lemma trapped_run:
  assumes "ignore_next_release c" and "state c = STATE_IDLE"
  shows "forwarded (fst (run ticks c)) = []
       \<and> gesture_triggers (fst (run ticks c)) = []
       \<and> ignore_next_release (snd (run ticks c))
       \<and> state (snd (run ticks c)) = STATE_IDLE
       \<and> start_x (snd (run ticks c)) = start_x c
       \<and> start_y (snd (run ticks c)) = start_y c
       \<and> gesture_start_time (snd (run ticks c)) = gesture_start_time c"
  using assms
proof (induction ticks arbitrary: c)
  case Nil
  then show ?case by (simp add: gesture_triggers_def)
next
  case (Cons tick ticks)
  obtain now ts where tick: "tick = (now, ts)"
    by (cases tick)
  note one = trapped_loop [OF Cons.prems, of now ts]
  then have "ignore_next_release (snd (loop now (Some ts) c))"
    and "state (snd (loop now (Some ts) c)) = STATE_IDLE"
    by simp_all
  from Cons.IH [OF this] one show ?case
    by (simp add: tick case_prod_beta)
qed











end
